theory Spec2Isabelle
  imports Main
begin

section \<open>Paths\<close>

text \<open>
  The converter manipulates paths through Python's \<^verbatim>\<open>pathlib.Path\<close> on a POSIX system. A
  path is the root it was parsed with (empty, one slash, or exactly two slashes) and its
  components; parsing drops empty components and single dots, and keeps double dots
  (CPython 3.8 to 3.13).
\<close>

record path =
  root :: string
  parts :: "string list"

fun split :: "char \<Rightarrow> string \<Rightarrow> string list" where
  "split c [] = [[]]"
| "split c (x # xs) =
     (if x = c then [] # split c xs
      else (case split c xs of [] \<Rightarrow> [[x]] | w # ws \<Rightarrow> (x # w) # ws))"

fun join :: "string \<Rightarrow> string list \<Rightarrow> string" where
  "join s [] = []"
| "join s [x] = x"
| "join s (x # y # ys) = x @ s @ join s (y # ys)"

definition startswith :: "string \<Rightarrow> string \<Rightarrow> bool" where
  "startswith s p = (take (length p) s = p)"

definition endswith :: "string \<Rightarrow> string \<Rightarrow> bool" where
  "endswith s e = (length e \<le> length s \<and> drop (length s - length e) s = e)"

definition splitroot :: "string \<Rightarrow> string" where
  "splitroot s =
     (if startswith s ''/'' then
        (if startswith s ''//'' \<and> \<not> startswith s ''///'' then ''//'' else ''/'')
      else [])"

definition Path :: "string \<Rightarrow> path" where
  "Path s = \<lparr> root = splitroot s,
              parts = filter (\<lambda>x. x \<noteq> [] \<and> x \<noteq> ''.'') (split CHR ''/'' s) \<rparr>"

definition str :: "path \<Rightarrow> string" where
  "str p =
     (if root p \<noteq> [] then root p @ join ''/'' (parts p)
      else if parts p = [] then ''.''
      else join ''/'' (parts p))"

definition name :: "path \<Rightarrow> string" where
  "name p = (if parts p = [] then [] else last (parts p))"

definition rfind :: "string \<Rightarrow> char \<Rightarrow> int" where
  "rfind s c =
     (if c \<in> set s then int (length s) - 1 - int (length (takeWhile (\<lambda>x. x \<noteq> c) (rev s)))
      else - 1)"

definition suffix :: "path \<Rightarrow> string" where
  "suffix p =
     (let n = name p; i = rfind n CHR ''.''
      in if 0 < i \<and> i < int (length n) - 1 then drop (nat i) n else [])"

definition stem :: "path \<Rightarrow> string" where
  "stem p =
     (let n = name p; i = rfind n CHR ''.''
      in if 0 < i \<and> i < int (length n) - 1 then take (nat i) n else n)"

datatype exn =
    FileNotFoundError string
  | FileExistsError string
  | IsADirectoryError string
  | NotADirectoryError string
  | ValueError string
  | EngineError string

definition with_suffix :: "path \<Rightarrow> string \<Rightarrow> exn + path" where
  "with_suffix p sfx =
     (if CHR ''/'' \<in> set sfx \<or> (sfx \<noteq> [] \<and> \<not> startswith sfx ''.'') \<or> sfx = ''.''
      then Inl (ValueError sfx)
      else let n = name p in
        if n = [] then Inl (ValueError (str p))
        else let old = suffix p;
                 n' = (if old = [] then n @ sfx
                       else take (length n - length old) n @ sfx)
             in Inr (p\<lparr> parts := butlast (parts p) @ [n'] \<rparr>))"

definition joinpath :: "path \<Rightarrow> string \<Rightarrow> path" where
  "joinpath p s =
     (if startswith s ''/'' then Path s
      else p\<lparr> parts := parts p @ parts (Path s) \<rparr>)"

definition parent :: "path \<Rightarrow> path" where
  "parent p = p\<lparr> parts := butlast (parts p) \<rparr>"

section \<open>File system, engine and log\<close>

text \<open>
  The file system is an association list from parsed paths to nodes, in the order in which
  the operating system enumerates them; a new entry is enumerated last. Two paths name the
  same file exactly when they parse to the same value: symbolic links, hard links and the
  resolution of double dots are outside the model. The entry of the empty relative path
  stands for the working directory.
\<close>

datatype node = File string | Dir

type_synonym filesystem = "(path \<times> node) list"

definition exists :: "filesystem \<Rightarrow> path \<Rightarrow> bool" where
  "exists fs p = (map_of fs p \<noteq> None)"

fun store :: "path \<Rightarrow> node \<Rightarrow> filesystem \<Rightarrow> filesystem" where
  "store p n [] = [(p, n)]"
| "store p n ((q, m) # fs) = (if q = p then (p, n) # fs else (q, m) # store p n fs)"

text \<open>\<^verbatim>\<open>Path.mkdir(exist_ok=True)\<close>, without \<^verbatim>\<open>parents\<close>.\<close>

definition mkdir :: "filesystem \<Rightarrow> path \<Rightarrow> exn + filesystem" where
  "mkdir fs p =
     (case map_of fs p of
        Some Dir \<Rightarrow> Inr fs
      | Some (File c) \<Rightarrow> Inl (FileExistsError (str p))
      | None \<Rightarrow>
          (case map_of fs (parent p) of
             Some Dir \<Rightarrow> Inr (store p Dir fs)
           | Some (File c) \<Rightarrow> Inl (NotADirectoryError (str p))
           | None \<Rightarrow> Inl (FileNotFoundError (str p))))"

text \<open>\<^verbatim>\<open>open(s, 'w')\<close> followed by the write of the whole text.\<close>

definition open_write :: "filesystem \<Rightarrow> string \<Rightarrow> string \<Rightarrow> exn + filesystem" where
  "open_write fs s content =
     (if s = [] then Inl (FileNotFoundError s)
      else if last s = CHR ''/'' then Inl (IsADirectoryError s)
      else let p = Path s in
        case map_of fs p of
          Some Dir \<Rightarrow> Inl (IsADirectoryError s)
        | Some (File c) \<Rightarrow> Inr (store p (File content) fs)
        | None \<Rightarrow>
            (case map_of fs (parent p) of
               Some Dir \<Rightarrow> Inr (store p (File content) fs)
             | Some (File c) \<Rightarrow> Inl (NotADirectoryError s)
             | None \<Rightarrow> Inl (FileNotFoundError s)))"

text \<open>
  \<^verbatim>\<open>Path.glob("*" + ext)\<close>. For an extension without glob metacharacters and without a
  slash, the pattern selects the entries directly inside the directory whose name ends with
  the extension, hidden ones included, in enumeration order, and nothing when the path is
  not a directory; the listing is taken when the iteration starts. Any other pattern is
  left to the parameter \<open>g\<close>, which may also raise.
\<close>

definition magic :: "string \<Rightarrow> bool" where
  "magic ext = (\<exists>c \<in> set ext. c \<in> set ''*?[/'')"

definition children :: "filesystem \<Rightarrow> path \<Rightarrow> path list" where
  "children fs d = filter (\<lambda>q. parts q \<noteq> [] \<and> parent q = d) (map fst fs)"

type_synonym globber = "filesystem \<Rightarrow> path \<Rightarrow> string \<Rightarrow> exn + path list"

definition glob :: "globber \<Rightarrow> filesystem \<Rightarrow> path \<Rightarrow> string \<Rightarrow> exn + path list" where
  "glob g fs d ext =
     (if magic ext then g fs d (''*'' @ ext)
      else if map_of fs d = Some Dir
        then Inr (filter (\<lambda>q. endswith (name q) ext) (children fs d))
      else Inr [])"

text \<open>
  The external engine: \<^verbatim>\<open>converter.convert(input_path)\<close> followed by
  \<^verbatim>\<open>result.document.export_to_markdown()\<close>, which reads the file system and gives the
  Markdown text or raises.
\<close>

type_synonym engine = "filesystem \<Rightarrow> string \<Rightarrow> exn + string"

text \<open>
  Every call of the logger in the source is one constructor; the root logger's level is
  either INFO (the configured one) or DEBUG, and both let info and error records through.
\<close>

datatype level = DEBUG | INFO

datatype severity = info | error

datatype log_event =
    Initialised
  | InitFailed exn
  | Converting string string
  | Completed string
  | ConversionFailed exn
  | FileFailed string exn
  | Failed exn

datatype out_line =
    Done string
  | BatchDone nat
  | Item string
  | Formats "string list"

record world =
  files :: filesystem
  logged :: "(severity \<times> log_event) list"
  log_level :: level
  printed :: "out_line list"
  stderr :: "string list"

definition logger :: "severity \<Rightarrow> log_event \<Rightarrow> world \<Rightarrow> world" where
  "logger s e w = w\<lparr> logged := logged w @ [(s, e)] \<rparr>"

definition print :: "out_line \<Rightarrow> world \<Rightarrow> world" where
  "print l w = w\<lparr> printed := printed w @ [l] \<rparr>"

section \<open>DoclingConverter\<close>

record DoclingConverter =
  use_ocr :: bool
  converter :: engine

text \<open>
  The constructor with \<^verbatim>\<open>_setup_converter\<close>: \<open>dc\<close> stands for building the pipeline
  options and the engine's \<^verbatim>\<open>DocumentConverter\<close>, which may raise.
\<close>

definition init :: "(bool \<Rightarrow> exn + engine) \<Rightarrow> bool \<Rightarrow> world \<Rightarrow> (exn + DoclingConverter) \<times> world" where
  "init dc ocr w =
     (case dc ocr of
        Inl e \<Rightarrow> (Inl e, logger error (InitFailed e) w)
      | Inr c \<Rightarrow> (Inr \<lparr> use_ocr = ocr, converter = c \<rparr>, logger info Initialised w))"

definition convert_file ::
  "DoclingConverter \<Rightarrow> string \<Rightarrow> string option \<Rightarrow> world \<Rightarrow> (exn + string) \<times> world" where
  "convert_file self input_path output_path w =
     (let input_file = Path input_path in
      if \<not> exists (files w) input_file then (Inl (FileNotFoundError input_path), w)
      else
        case (case output_path of
                None \<Rightarrow> map_sum id str (with_suffix input_file ''.md'')
              | Some s \<Rightarrow> Inr s) of
          Inl e \<Rightarrow> (Inl e, w)
        | Inr out \<Rightarrow>
            let w1 = logger info (Converting input_path out) w in
            case converter self (files w1) input_path of
              Inl e \<Rightarrow> (Inl e, logger error (ConversionFailed e) w1)
            | Inr markdown_content \<Rightarrow>
                (case open_write (files w1) out markdown_content of
                   Inl e \<Rightarrow> (Inl e, logger error (ConversionFailed e) w1)
                 | Inr fs' \<Rightarrow>
                     (Inr out, logger info (Completed out) (w1\<lparr> files := fs' \<rparr>))))"

definition default_extensions :: "string list" where
  "default_extensions = [''.pdf'', ''.docx'', ''.pptx'', ''.doc'', ''.ppt'']"

text \<open>The body of the inner loop and the loop over the files one pattern selected.\<close>

fun convert_each ::
  "DoclingConverter \<Rightarrow> path \<Rightarrow> path list \<Rightarrow> string list \<times> world \<Rightarrow> string list \<times> world" where
  "convert_each self output_path [] (converted_files, w) = (converted_files, w)"
| "convert_each self output_path (file_path # rest) (converted_files, w) =
     (let output_file = joinpath output_path (stem file_path @ ''.md'') in
      case convert_file self (str file_path) (Some (str output_file)) w of
        (Inr result, w') \<Rightarrow>
          convert_each self output_path rest (converted_files @ [result], w')
      | (Inl e, w') \<Rightarrow>
          convert_each self output_path rest
            (converted_files, logger error (FileFailed (str file_path) e) w'))"

text \<open>The loop over the extensions.\<close>

fun convert_exts ::
  "globber \<Rightarrow> DoclingConverter \<Rightarrow> path \<Rightarrow> path \<Rightarrow> string list \<Rightarrow> string list \<times> world
     \<Rightarrow> (exn + string list) \<times> world" where
  "convert_exts g self input_path output_path [] (converted_files, w) = (Inr converted_files, w)"
| "convert_exts g self input_path output_path (ext # exts) (converted_files, w) =
     (case glob g (files w) input_path ext of
        Inl e \<Rightarrow> (Inl e, w)
      | Inr found \<Rightarrow>
          convert_exts g self input_path output_path exts
            (convert_each self output_path found (converted_files, w)))"

definition convert_multiple_files ::
  "globber \<Rightarrow> DoclingConverter \<Rightarrow> string \<Rightarrow> string option \<Rightarrow> string list option \<Rightarrow> world
     \<Rightarrow> (exn + string list) \<times> world" where
  "convert_multiple_files g self input_dir output_dir file_extensions w =
     (let file_extensions =
            (case file_extensions of None \<Rightarrow> default_extensions | Some l \<Rightarrow> l);
          input_path = Path input_dir in
      if \<not> exists (files w) input_path then (Inl (FileNotFoundError input_dir), w)
      else
        let output_path =
              (case output_dir of
                 None \<Rightarrow> joinpath input_path ''markdown_output''
               | Some d \<Rightarrow> Path d) in
        case mkdir (files w) output_path of
          Inl e \<Rightarrow> (Inl e, w)
        | Inr fs' \<Rightarrow>
            convert_exts g self input_path output_path file_extensions
              ([], w\<lparr> files := fs' \<rparr>))"

definition get_supported_formats :: "DoclingConverter \<Rightarrow> string list" where
  "get_supported_formats self =
     [''.pdf'', ''.docx'', ''.pptx'', ''.doc'', ''.ppt'', ''.html'', ''.txt'']"

section \<open>Command line\<close>

text \<open>
  The parsed arguments. A test such as \<^verbatim>\<open>if args.input\<close> holds for a value that is present
  and not the empty string.
\<close>

record args =
  input :: "string option"
  "output" :: "string option"
  directory :: "string option"
  output_dir :: "string option"
  ocr :: bool
  extensions :: "string list"
  verbose :: bool

definition truthy :: "string option \<Rightarrow> string option" where
  "truthy x = (case x of None \<Rightarrow> None | Some s \<Rightarrow> if s = [] then None else Some s)"

text \<open>\<^verbatim>\<open>parser.error\<close> writes the message to the error stream and exits with status 2.\<close>

definition parser_error :: "string \<Rightarrow> world \<Rightarrow> nat \<times> world" where
  "parser_error m w = (2, w\<lparr> stderr := stderr w @ [m] \<rparr>)"

definition main :: "(bool \<Rightarrow> exn + engine) \<Rightarrow> globber \<Rightarrow> args \<Rightarrow> world \<Rightarrow> nat \<times> world" where
  "main dc g a w0 =
     (let w = (if verbose a then w0\<lparr> log_level := DEBUG \<rparr> else w0) in
      if truthy (input a) = None \<and> truthy (directory a) = None
        then parser_error ''Debe especificar un archivo de entrada o un directorio'' w
      else if truthy (input a) \<noteq> None \<and> truthy (directory a) \<noteq> None
        then parser_error ''No puede especificar tanto un archivo como un directorio'' w
      else
        case init dc (ocr a) w of
          (Inl e, w1) \<Rightarrow> (1, logger error (Failed e) w1)
        | (Inr c, w1) \<Rightarrow>
            (case (case truthy (input a) of
                     Some i \<Rightarrow>
                       (case convert_file c i (output a) w1 of
                          (Inl e, w2) \<Rightarrow> (Inl e, w2)
                        | (Inr result, w2) \<Rightarrow> (Inr (), print (Done result) w2))
                   | None \<Rightarrow>
                       (case truthy (directory a) of
                          Some d \<Rightarrow>
                            (case convert_multiple_files g c d (output_dir a)
                                    (Some (extensions a)) w1 of
                               (Inl e, w2) \<Rightarrow> (Inl e, w2)
                             | (Inr results, w2) \<Rightarrow>
                                 (Inr (),
                                  fold print (BatchDone (length results) # map Item results) w2))
                        | None \<Rightarrow> (Inr (), w1))) of
               (Inl e, w2) \<Rightarrow> (1, logger error (Failed e) w2)
             | (Inr u, w2) \<Rightarrow>
                 (0, if verbose a then print (Formats (get_supported_formats c)) w2 else w2)))"

section \<open>A concrete scenario\<close>

text \<open>
  A directory \<^verbatim>\<open>docs\<close> with two documents of the same stem, a corrupt one, a text file and
  one more document, and an engine that reads only its input file and fails on the corrupt
  one. The scenario is
  used to run the definitions above on concrete inputs.
\<close>

definition example_engine :: engine where
  "example_engine fs s =
     (case map_of fs (Path s) of
        Some (File c) \<Rightarrow> if c = ''corrupt'' then Inl (EngineError s) else Inr (''# '' @ c)
      | Some Dir \<Rightarrow> Inl (IsADirectoryError s)
      | None \<Rightarrow> Inl (FileNotFoundError s))"

definition example_files :: filesystem where
  "example_files =
     [(Path ''.'', Dir), (Path ''docs'', Dir), (Path ''docs/a.pdf'', File ''A''),
      (Path ''docs/b.docx'', File ''corrupt''), (Path ''docs/a.docx'', File ''A2''),
      (Path ''docs/c.txt'', File ''C''), (Path ''docs/e.docx'', File ''E'')]"

definition example_world :: world where
  "example_world =
     \<lparr> files = example_files, logged = [], log_level = INFO, printed = [], stderr = [] \<rparr>"

definition example_converter :: DoclingConverter where
  "example_converter = \<lparr> use_ocr = False, converter = example_engine \<rparr>"

definition example_setup :: "bool \<Rightarrow> exn + engine" where
  "example_setup b = Inr example_engine"

definition no_glob :: globber where
  "no_glob fs d pat = Inr []"

definition example_args :: args where
  "example_args =
     \<lparr> input = None, output = None, directory = None, output_dir = None, ocr = False,
       extensions = default_extensions, verbose = False \<rparr>"

section \<open>Vocabulary of the properties\<close>

text \<open>
  A path is \<open>parsed\<close> when it has the shape \<open>Path\<close> produces: one of the three roots, and
  components that are not empty, not a single dot, and free of slashes.
\<close>

definition parsed :: "path \<Rightarrow> bool" where
  "parsed p = ((root p = [] \<or> root p = ''/'' \<or> root p = ''//'')
               \<and> (\<forall>x \<in> set (parts p). x \<noteq> [] \<and> x \<noteq> ''.'' \<and> CHR ''/'' \<notin> set x))"

text \<open>
  The vocabulary of the batch properties. \<open>output_file\<close> is the expression of line 137 of the
  source; \<open>output_directory\<close> and \<open>chosen\<close> are the two defaults of
  \<open>convert_multiple_files\<close>. \<open>matching\<close> lists the files the patterns select on one file
  system, pattern after pattern. \<open>outcome\<close> says what converting a file of the input
  directory gives on a file system whose output directory exists: the engine's error, the
  error of a target that is a directory, or the Markdown; \<open>results\<close>, \<open>written\<close> and
  \<open>events\<close> are the returned paths, the files stored and the log records that follow from
  the outcomes. \<open>reads_input\<close> says that the engine's answer depends only on what is stored
  at the path it is given. \<open>stable\<close> relates the file system before the first conversion
  to a later one: entries outside the output directory, the set of directories and the
  listing of every other directory are the same.
\<close>

definition output_file :: "path \<Rightarrow> path \<Rightarrow> path" where
  "output_file out f = joinpath out (stem f @ ''.md'')"

definition inside :: "path \<Rightarrow> path \<Rightarrow> bool" where
  "inside d p = (parts p \<noteq> [] \<and> parent p = d)"

definition reads_input :: "engine \<Rightarrow> bool" where
  "reads_input eng =
     (\<forall>fs fs' s. map_of fs (Path s) = map_of fs' (Path s) \<longrightarrow> eng fs s = eng fs' s)"

definition matching :: "globber \<Rightarrow> filesystem \<Rightarrow> path \<Rightarrow> string list \<Rightarrow> path list" where
  "matching g fs d exts =
     concat (map (\<lambda>ext. case glob g fs d ext of Inl e \<Rightarrow> [] | Inr found \<Rightarrow> found) exts)"

definition outcome :: "DoclingConverter \<Rightarrow> filesystem \<Rightarrow> path \<Rightarrow> path \<Rightarrow> exn + string" where
  "outcome self fs out f =
     (case converter self fs (str f) of
        Inl e \<Rightarrow> Inl e
      | Inr md \<Rightarrow>
          if map_of fs (output_file out f) = Some Dir
          then Inl (IsADirectoryError (str (output_file out f)))
          else Inr md)"

definition succeeds :: "DoclingConverter \<Rightarrow> filesystem \<Rightarrow> path \<Rightarrow> path \<Rightarrow> bool" where
  "succeeds self fs out f = (case outcome self fs out f of Inl e \<Rightarrow> False | Inr md \<Rightarrow> True)"

definition events ::
  "DoclingConverter \<Rightarrow> filesystem \<Rightarrow> path \<Rightarrow> path \<Rightarrow> (severity \<times> log_event) list" where
  "events self fs out f =
     (case outcome self fs out f of
        Inl e \<Rightarrow>
          [(info, Converting (str f) (str (output_file out f))),
           (error, ConversionFailed e),
           (error, FileFailed (str f) e)]
      | Inr md \<Rightarrow>
          [(info, Converting (str f) (str (output_file out f))),
           (info, Completed (str (output_file out f)))])"

definition write_one ::
  "DoclingConverter \<Rightarrow> filesystem \<Rightarrow> path \<Rightarrow> path \<Rightarrow> filesystem \<Rightarrow> filesystem" where
  "write_one self fs0 out f fs =
     (case outcome self fs0 out f of
        Inl e \<Rightarrow> fs
      | Inr md \<Rightarrow> store (output_file out f) (File md) fs)"

definition written ::
  "DoclingConverter \<Rightarrow> filesystem \<Rightarrow> path \<Rightarrow> path list \<Rightarrow> filesystem \<Rightarrow> filesystem" where
  "written self fs0 out fl fs = fold (write_one self fs0 out) fl fs"

definition results :: "DoclingConverter \<Rightarrow> filesystem \<Rightarrow> path \<Rightarrow> path list \<Rightarrow> string list" where
  "results self fs0 out fl =
     map (\<lambda>f. str (output_file out f)) (filter (succeeds self fs0 out) fl)"

definition sources :: "filesystem \<Rightarrow> path \<Rightarrow> path list \<Rightarrow> bool" where
  "sources fs0 out fl =
     (\<forall>f \<in> set fl. parsed f \<and> parts f \<noteq> [] \<and> \<not> inside out f \<and> map_of fs0 f \<noteq> None)"

definition output_directory :: "string \<Rightarrow> string option \<Rightarrow> path" where
  "output_directory d od =
     (case od of None \<Rightarrow> joinpath (Path d) ''markdown_output'' | Some x \<Rightarrow> Path x)"

definition chosen :: "string list option \<Rightarrow> string list" where
  "chosen es = (case es of None \<Rightarrow> default_extensions | Some l \<Rightarrow> l)"

definition stable :: "path \<Rightarrow> filesystem \<Rightarrow> filesystem \<Rightarrow> bool" where
  "stable out fs0 fs =
     ((\<forall>p. \<not> inside out p \<longrightarrow> map_of fs p = map_of fs0 p)
      \<and> (\<forall>p. map_of fs p = Some Dir \<longleftrightarrow> map_of fs0 p = Some Dir)
      \<and> (\<forall>d. d \<noteq> out \<longrightarrow> children fs d = children fs0 d))"

definition example_prepared :: filesystem where
  "example_prepared = example_files @ [(Path ''docs/markdown_output'', Dir)]"



text \<open>
  \<open>input_of\<close> is the input path a log record names, when it is the record of a conversion
  that starts or of a file the batch loop gave up; \<open>only_inputs P\<close> says that every input
  named in some records satisfies \<open>P\<close>.
\<close>

definition input_of :: "severity \<times> log_event \<Rightarrow> string option" where
  "input_of r =
     (case snd r of Converting i t \<Rightarrow> Some i | FileFailed i e \<Rightarrow> Some i | _ \<Rightarrow> None)"

definition only_inputs :: "(string \<Rightarrow> bool) \<Rightarrow> (severity \<times> log_event) list \<Rightarrow> bool" where
  "only_inputs P l = (\<forall>r \<in> set l. \<forall>i. input_of r = Some i \<longrightarrow> P i)"

section \<open>Properties\<close>

subsection \<open>Supported formats\<close>

text \<open>
  C8. The supported-format query gives the same list for every converter; the list is not
  empty and contains \<^verbatim>\<open>.pdf\<close>, \<^verbatim>\<open>.docx\<close> and \<^verbatim>\<open>.pptx\<close>.
\<close>

theorem supported_formats_fixed:
  "get_supported_formats self = get_supported_formats other
   \<and> get_supported_formats self \<noteq> []
   \<and> ''.pdf'' \<in> set (get_supported_formats self)
   \<and> ''.docx'' \<in> set (get_supported_formats self)
   \<and> ''.pptx'' \<in> set (get_supported_formats self)"
  by (simp add: get_supported_formats_def)

subsection \<open>Missing inputs\<close>

lemma example_missing: "\<not> exists (files example_world) (Path ''missing.pdf'')"
  by (simp add: exists_def example_world_def example_files_def Path_def splitroot_def
      startswith_def)

lemma example_missing_dir: "\<not> exists (files example_world) (Path ''nowhere'')"
  by (simp add: exists_def example_world_def example_files_def Path_def splitroot_def
      startswith_def)

text \<open>
  C3. When the input path names nothing that exists, \<open>convert_file\<close> raises
  \<open>FileNotFoundError\<close> and leaves the whole world as it was: no file is written and nothing is
  logged. When the input directory does not exist, \<open>convert_multiple_files\<close> raises
  \<open>FileNotFoundError\<close> and leaves the world as it was: the output directory is not created and
  no file is converted.
\<close>

theorem not_found:
  "(\<not> exists (files w) (Path input_path) \<longrightarrow>
      convert_file self input_path out w = (Inl (FileNotFoundError input_path), w))
   \<and> (\<not> exists (files w) (Path input_dir) \<longrightarrow>
      convert_multiple_files g self input_dir out_dir exts w
        = (Inl (FileNotFoundError input_dir), w))"
  by (simp add: convert_file_def convert_multiple_files_def)

theorem not_found_witness:
  "\<not> exists (files example_world) (Path ''missing.pdf'')
   \<and> convert_file example_converter ''missing.pdf'' None example_world
       = (Inl (FileNotFoundError ''missing.pdf''), example_world)
   \<and> \<not> exists (files example_world) (Path ''nowhere'')
   \<and> convert_multiple_files no_glob example_converter ''nowhere'' None None example_world
       = (Inl (FileNotFoundError ''nowhere''), example_world)"
  using not_found [of example_world "''missing.pdf''" example_converter None "''nowhere''"
      no_glob None None]
    example_missing example_missing_dir
  by simp

subsection \<open>Command line\<close>

text \<open>
  C6. When neither the input file nor the directory is given, or both are given (an
  argument counts as given when it is present and not empty, as the source tests it), \<open>main\<close>
  exits with status 2. No file is touched, nothing is logged and nothing is printed, so the
  converter was not constructed and nothing was converted: the outcome is the same whatever
  the engine and the file enumeration are.
\<close>

theorem argument_error:
  "(truthy (input a) = None \<and> truthy (directory a) = None)
     \<or> (truthy (input a) \<noteq> None \<and> truthy (directory a) \<noteq> None)
   \<Longrightarrow> fst (main dc g a w) = 2
     \<and> files (snd (main dc g a w)) = files w
     \<and> logged (snd (main dc g a w)) = logged w
     \<and> printed (snd (main dc g a w)) = printed w
     \<and> main dc g a w = main dc' g' a w"
  by (auto simp add: main_def parser_error_def Let_def)

theorem argument_error_witness:
  "truthy (input example_args) = None \<and> truthy (directory example_args) = None
   \<and> fst (main example_setup no_glob example_args example_world) = 2
   \<and> logged (snd (main example_setup no_glob example_args example_world)) = []
   \<and> truthy (input (example_args\<lparr> input := Some ''a.pdf'', directory := Some ''docs'' \<rparr>)) \<noteq> None
   \<and> truthy (directory (example_args\<lparr> input := Some ''a.pdf'', directory := Some ''docs'' \<rparr>))
        \<noteq> None
   \<and> fst (main example_setup no_glob
          (example_args\<lparr> input := Some ''a.pdf'', directory := Some ''docs'' \<rparr>) example_world) = 2"
proof -
  have n: "truthy (input example_args) = None \<and> truthy (directory example_args) = None"
    by (simp add: truthy_def example_args_def)
  have b: "truthy (input (example_args\<lparr> input := Some ''a.pdf'', directory := Some ''docs'' \<rparr>))
             \<noteq> None
           \<and> truthy (directory (example_args\<lparr> input := Some ''a.pdf'', directory := Some ''docs'' \<rparr>))
             \<noteq> None"
    by (simp add: truthy_def)
  have l: "logged example_world = []"
    by (simp add: example_world_def)
  show ?thesis
    using argument_error [of example_args example_setup no_glob example_world] n
      argument_error [of "example_args\<lparr> input := Some ''a.pdf'', directory := Some ''docs'' \<rparr>"
        example_setup no_glob example_world] b l
    by simp
qed

subsection \<open>Evaluation and frame lemmas\<close>

lemmas path_defs = Path_def str_def splitroot_def startswith_def endswith_def name_def rfind_def
  suffix_def stem_def with_suffix_def joinpath_def parent_def

lemmas run_defs = exists_def mkdir_def open_write_def magic_def children_def glob_def logger_def
  print_def init_def convert_file_def convert_multiple_files_def default_extensions_def
  get_supported_formats_def truthy_def parser_error_def main_def

lemmas example_defs = example_engine_def example_files_def example_world_def
  example_converter_def example_setup_def no_glob_def example_args_def

lemma convert_file_frame:
  "log_level (snd (convert_file self i out w)) = log_level w
   \<and> printed (snd (convert_file self i out w)) = printed w
   \<and> stderr (snd (convert_file self i out w)) = stderr w"
  by (simp add: convert_file_def logger_def Let_def split: sum.splits option.splits)

lemma convert_each_frame:
  "log_level (snd (convert_each self op fl (acc, w))) = log_level w
   \<and> printed (snd (convert_each self op fl (acc, w))) = printed w
   \<and> stderr (snd (convert_each self op fl (acc, w))) = stderr w"
proof (induction fl arbitrary: acc w)
  case Nil
  show ?case by simp
next
  case (Cons f fl)
  obtain r w' where
    c: "convert_file self (str f) (Some (str (joinpath op (stem f @ ''.md'')))) w = (r, w')"
    by (cases "convert_file self (str f) (Some (str (joinpath op (stem f @ ''.md'')))) w")
  have fr: "log_level w' = log_level w \<and> printed w' = printed w \<and> stderr w' = stderr w"
    using convert_file_frame [of self "str f" "Some (str (joinpath op (stem f @ ''.md'')))" w] c
    by simp
  show ?case
  proof (cases r)
    case (Inl e)
    then show ?thesis
      using c fr Cons.IH [of acc "logger error (FileFailed (str f) e) w'"]
      by (simp add: logger_def)
  next
    case (Inr x)
    then show ?thesis
      using c fr Cons.IH [of "acc @ [x]" w'] by simp
  qed
qed

lemma convert_exts_frame:
  "log_level (snd (convert_exts g self ip op es (acc, w))) = log_level w
   \<and> printed (snd (convert_exts g self ip op es (acc, w))) = printed w
   \<and> stderr (snd (convert_exts g self ip op es (acc, w))) = stderr w"
proof (induction es arbitrary: acc w)
  case Nil
  show ?case by simp
next
  case (Cons e es)
  show ?case
  proof (cases "glob g (files w) ip e")
    case (Inl x)
    then show ?thesis by simp
  next
    case (Inr found)
    obtain acc' w' where ce: "convert_each self op found (acc, w) = (acc', w')"
      by (cases "convert_each self op found (acc, w)")
    show ?thesis
      using Inr ce Cons.IH [of acc' w'] convert_each_frame [of self op found acc w]
      by simp
  qed
qed

lemma convert_multiple_files_frame:
  "log_level (snd (convert_multiple_files g self d od es w)) = log_level w
   \<and> printed (snd (convert_multiple_files g self d od es w)) = printed w
   \<and> stderr (snd (convert_multiple_files g self d od es w)) = stderr w"
  using convert_exts_frame [of g self "Path d" _ _ "[]" "w\<lparr>files := _\<rparr>"]
  by (simp add: convert_multiple_files_def Let_def split: sum.splits)

lemma fold_print:
  "printed (fold print ls w) = printed w @ ls \<and> log_level (fold print ls w) = log_level w"
  by (induction ls arbitrary: w) (simp_all add: print_def)

subsection \<open>The verbose flag\<close>

lemma run_missing:
  "main example_setup no_glob
     (example_args\<lparr> input := Some ''missing.pdf'', verbose := True \<rparr>) example_world
   = (1, example_world\<lparr> log_level := DEBUG,
          logged := [(info, Initialised), (error, Failed (FileNotFoundError ''missing.pdf''))] \<rparr>)"
  by (simp add: path_defs run_defs example_defs)

lemma run_single:
  "main example_setup no_glob
     (example_args\<lparr> input := Some ''docs/a.pdf'', verbose := True \<rparr>) example_world
   = (0, \<lparr> files = example_files @ [(Path ''docs/a.md'', File ''# A'')],
          logged = [(info, Initialised), (info, Converting ''docs/a.pdf'' ''docs/a.md''),
                    (info, Completed ''docs/a.md'')],
          log_level = DEBUG,
          printed = [Done ''docs/a.md'', Formats (get_supported_formats example_converter)],
          stderr = [] \<rparr>)"
  by (simp add: path_defs run_defs example_defs)

text \<open>
  C7 as stated fails: with the verbose flag and an input file that does not exist, the run
  ends with status 1 and prints nothing, so the supported extensions are not printed.
\<close>

theorem verbose_counterexample:
  "verbose (example_args\<lparr> input := Some ''missing.pdf'', verbose := True \<rparr>)
   \<and> fst (main example_setup no_glob
        (example_args\<lparr> input := Some ''missing.pdf'', verbose := True \<rparr>) example_world) = 1
   \<and> printed (snd (main example_setup no_glob
        (example_args\<lparr> input := Some ''missing.pdf'', verbose := True \<rparr>) example_world)) = []"
  by (simp add: run_missing) (simp add: example_world_def)

text \<open>
  C7, amended. With the verbose flag set, the logging level is DEBUG at the end of every
  run. The list of supported extensions is printed, as the last line, when the run ends with
  status 0; a run that ends with another status (an argument error, a converter that cannot
  be constructed, a failed conversion, a missing directory) prints nothing.
\<close>

theorem verbose_effect:
  assumes v: "verbose a"
  shows "log_level (snd (main dc g a w)) = DEBUG
     \<and> (if fst (main dc g a w) = 0
        then \<exists>c ls. printed (snd (main dc g a w))
                      = printed w @ ls @ [Formats (get_supported_formats c)]
        else printed (snd (main dc g a w)) = printed w)"
proof -
  let ?w = "w\<lparr>log_level := DEBUG\<rparr>"
  consider (bad) "(truthy (input a) = None \<and> truthy (directory a) = None)
       \<or> (truthy (input a) \<noteq> None \<and> truthy (directory a) \<noteq> None)"
    | (single) i where "truthy (input a) = Some i" "truthy (directory a) = None"
    | (batch) d where "truthy (input a) = None" "truthy (directory a) = Some d"
    by (cases "truthy (input a)"; cases "truthy (directory a)") auto
  then show ?thesis
  proof cases
    case bad
    then show ?thesis using v
      by (auto simp add: main_def parser_error_def Let_def)
  next
    case single
    show ?thesis
    proof (cases "dc (ocr a)")
      case (Inl e)
      then show ?thesis using v single
        by (simp add: main_def init_def logger_def)
    next
      case (Inr eng)
      let ?c = "\<lparr>use_ocr = ocr a, converter = eng\<rparr>"
      let ?w1 = "logger info Initialised ?w"
      have w1: "log_level ?w1 = DEBUG \<and> printed ?w1 = printed w" by (simp add: logger_def)
      obtain r w2 where cf: "convert_file ?c i (output a) ?w1 = (r, w2)"
        by (cases "convert_file ?c i (output a) ?w1")
      have fr: "log_level w2 = DEBUG \<and> printed w2 = printed w"
        using convert_file_frame [of ?c i "output a" ?w1] cf w1 by simp
      show ?thesis
      proof (cases r)
        case (Inl e)
        then show ?thesis using v Inr single cf fr
          by (simp add: main_def init_def logger_def)
      next
        case (Inr x)
        then show ?thesis using v \<open>dc (ocr a) = Inr eng\<close> single cf fr
          by (simp add: main_def init_def print_def) blast
      qed
    qed
  next
    case batch
    show ?thesis
    proof (cases "dc (ocr a)")
      case (Inl e)
      then show ?thesis using v batch
        by (simp add: main_def init_def logger_def)
    next
      case (Inr eng)
      let ?c = "\<lparr>use_ocr = ocr a, converter = eng\<rparr>"
      let ?w1 = "logger info Initialised ?w"
      have w1: "log_level ?w1 = DEBUG \<and> printed ?w1 = printed w" by (simp add: logger_def)
      obtain r w2 where
        cm: "convert_multiple_files g ?c d (output_dir a) (Some (extensions a)) ?w1 = (r, w2)"
        by (cases "convert_multiple_files g ?c d (output_dir a) (Some (extensions a)) ?w1")
      have fr: "log_level w2 = DEBUG \<and> printed w2 = printed w"
        using convert_multiple_files_frame [of g ?c d "output_dir a" "Some (extensions a)" ?w1]
          cm w1
        by simp
      show ?thesis
      proof (cases r)
        case (Inl e)
        then show ?thesis using v Inr batch cm fr
          by (simp add: main_def init_def logger_def)
      next
        case (Inr xs)
        then show ?thesis using v \<open>dc (ocr a) = Inr eng\<close> batch cm fr
          by (simp add: main_def init_def print_def fold_print) blast
      qed
    qed
  qed
qed

theorem verbose_effect_witness:
  "verbose (example_args\<lparr> input := Some ''docs/a.pdf'', verbose := True \<rparr>)
   \<and> fst (main example_setup no_glob
        (example_args\<lparr> input := Some ''docs/a.pdf'', verbose := True \<rparr>) example_world) = 0
   \<and> log_level (snd (main example_setup no_glob
        (example_args\<lparr> input := Some ''docs/a.pdf'', verbose := True \<rparr>) example_world)) = DEBUG
   \<and> (\<exists>c ls. printed (snd (main example_setup no_glob
        (example_args\<lparr> input := Some ''docs/a.pdf'', verbose := True \<rparr>) example_world))
        = printed example_world @ ls @ [Formats (get_supported_formats c)])"
proof -
  have v: "verbose (example_args\<lparr> input := Some ''docs/a.pdf'', verbose := True \<rparr>)"
    by simp
  have z: "fst (main example_setup no_glob
        (example_args\<lparr> input := Some ''docs/a.pdf'', verbose := True \<rparr>) example_world) = 0"
    by (simp add: run_single)
  show ?thesis
    using verbose_effect [OF v, of example_setup no_glob example_world] v z
    by simp
qed

subsection \<open>Paths\<close>

lemma split_not_Nil: "split c s \<noteq> []"
  by (induction s) (auto split: list.splits)

lemma set_split: "x \<in> set (split c s) \<Longrightarrow> c \<notin> set x"
  by (induction s arbitrary: x) (auto split: list.splits if_splits)

lemma split_no_sep: "c \<notin> set s \<Longrightarrow> split c s = [s]"
  by (induction s) auto

lemma split_append: "c \<notin> set a \<Longrightarrow> split c (a @ c # s) = a # split c s"
  by (induction a) (auto split: list.splits)

lemma split_join:
  "ps \<noteq> [] \<Longrightarrow> \<forall>x \<in> set ps. c \<notin> set x \<Longrightarrow> split c (join [c] ps) = ps"
proof (induction ps)
  case Nil
  then show ?case by simp
next
  case (Cons x xs)
  show ?case
  proof (cases xs)
    case Nil
    then show ?thesis using Cons.prems by (simp add: split_no_sep)
  next
    case (Cons y ys)
    then have "split c (join [c] xs) = xs" using Cons.IH Cons.prems by simp
    then show ?thesis using Cons Cons.prems split_append [of c x "join [c] xs"] by simp
  qed
qed

lemma parsed_Path: "parsed (Path s)"
  using set_split [of _ "CHR ''/''" s]
  by (auto simp add: parsed_def Path_def splitroot_def)

lemma join_hd:
  "ps \<noteq> [] \<Longrightarrow> hd ps \<noteq> [] \<Longrightarrow> join s ps \<noteq> [] \<and> hd (join s ps) = hd (hd ps)"
  by (cases ps; cases "tl ps") auto

lemma Path_str: "parsed p \<Longrightarrow> Path (str p) = p"
proof -
  assume p: "parsed p"
  have ns: "\<forall>x \<in> set (parts p). CHR ''/'' \<notin> set x" using p by (simp add: parsed_def)
  have keep: "filter (\<lambda>x. x \<noteq> [] \<and> x \<noteq> ''.'') (parts p) = parts p"
    using p by (simp add: parsed_def)
  show ?thesis
  proof (cases "parts p = []")
    case True
    then show ?thesis using p
      by (auto simp add: parsed_def Path_def str_def splitroot_def startswith_def)
  next
    case False
    have sj: "split CHR ''/'' (join ''/'' (parts p)) = parts p"
      using split_join [OF False, of "CHR ''/''"] ns by simp
    have h: "hd (parts p) \<noteq> [] \<and> CHR ''/'' \<notin> set (hd (parts p))"
      using p False by (simp add: parsed_def)
    have jh: "join ''/'' (parts p) \<noteq> [] \<and> hd (join ''/'' (parts p)) \<noteq> CHR ''/''"
      using join_hd [OF False, of "''/''"] h
      by (metis hd_in_set)
    obtain a as where j: "join ''/'' (parts p) = a # as" "a \<noteq> CHR ''/''"
      using jh by (cases "join ''/'' (parts p)") auto
    have sja: "split CHR ''/'' (a # as) = parts p" using sj j by simp
    consider "root p = []" | "root p = ''/''" | "root p = ''//''"
      using p by (auto simp add: parsed_def)
    then show ?thesis
    proof cases
      case 1
      then show ?thesis using False j sja keep
        by (simp add: Path_def str_def splitroot_def startswith_def del: split.simps)
    next
      case 2
      then show ?thesis using False j sja keep
        by (simp add: Path_def str_def splitroot_def startswith_def del: split.simps)
          (simp add: sja[symmetric])
    next
      case 3
      then show ?thesis using False j sja keep
        by (simp add: Path_def str_def splitroot_def startswith_def del: split.simps)
          (simp add: sja[symmetric])
    qed
  qed
qed

lemma name_stem_suffix: "name p = stem p @ suffix p"
  by (simp add: stem_def suffix_def Let_def)

lemma with_suffix_md:
  "with_suffix p ''.md'' =
     (if name p = [] then Inl (ValueError (str p))
      else Inr (p\<lparr> parts := butlast (parts p) @ [stem p @ ''.md''] \<rparr>))"
proof -
  have "suffix p \<noteq> [] \<Longrightarrow> take (length (name p) - length (suffix p)) (name p) = stem p"
    by (auto simp add: stem_def suffix_def Let_def split: if_splits)
  moreover have "suffix p = [] \<Longrightarrow> name p = stem p"
    using name_stem_suffix [of p] by simp
  ultimately show ?thesis
    by (auto simp add: with_suffix_def startswith_def Let_def)
qed

lemma stem_chars: "set (stem p) \<subseteq> set (name p)"
  by (auto simp add: stem_def Let_def dest: in_set_takeD)

lemma parsed_replace_name:
  "parsed p \<Longrightarrow> CHR ''/'' \<notin> set n \<Longrightarrow> parsed (p\<lparr> parts := butlast (parts p) @ [n @ ''.md''] \<rparr>)"
  by (auto simp add: parsed_def dest: in_set_butlastD)

lemma name_chars: "parsed p \<Longrightarrow> CHR ''/'' \<notin> set (name p)"
  by (auto simp add: parsed_def name_def)

lemma map_of_store: "map_of (store p n fs) = (map_of fs)(p \<mapsto> n)"
  by (induction fs) auto

subsection \<open>Output path of a conversion\<close>

lemma run_convert_default:
  "convert_file example_converter ''docs/a.pdf'' None example_world
   = (Inr ''docs/a.md'',
      example_world\<lparr> files := example_files @ [(Path ''docs/a.md'', File ''# A'')],
        logged := [(info, Converting ''docs/a.pdf'' ''docs/a.md''),
                   (info, Completed ''docs/a.md'')] \<rparr>)"
  by (simp add: path_defs run_defs example_defs)

lemma run_convert_explicit:
  "convert_file example_converter ''docs/a.pdf'' (Some ''./docs/out.txt'') example_world
   = (Inr ''./docs/out.txt'',
      example_world\<lparr> files := example_files @ [(Path ''docs/out.txt'', File ''# A'')],
        logged := [(info, Converting ''docs/a.pdf'' ''./docs/out.txt''),
                   (info, Completed ''./docs/out.txt'')] \<rparr>)"
  by (simp add: path_defs run_defs example_defs)

lemma example_exists: "exists (files example_world) (Path ''docs/a.pdf'')"
  by (simp add: path_defs run_defs example_defs)

text \<open>
  C1. When the input exists and \<open>convert_file\<close> succeeds, the string it returns is the
  explicit output path, unchanged, when one was given; otherwise it is the input path with
  the last component's suffix replaced by \<^verbatim>\<open>.md\<close> (the component is its stem followed by its
  suffix, and the stem followed by \<^verbatim>\<open>.md\<close> takes its place). The new file system is the old
  one with the engine's Markdown stored at the path that string names, and nothing else
  changed.
\<close>

theorem convert_file_output:
  assumes "exists (files w) (Path i)"
    and "convert_file self i out w = (Inr r, w')"
  shows "r = (case out of
                Some s \<Rightarrow> s
              | None \<Rightarrow> str ((Path i)\<lparr> parts := butlast (parts (Path i)) @ [stem (Path i) @ ''.md''] \<rparr>))
         \<and> (out = None \<longrightarrow>
               Path r = (Path i)\<lparr> parts := butlast (parts (Path i)) @ [stem (Path i) @ ''.md''] \<rparr>
               \<and> name (Path i) = stem (Path i) @ suffix (Path i))
         \<and> (\<exists>md. converter self (files w) i = Inr md
                \<and> files w' = store (Path r) (File md) (files w)
                \<and> map_of (files w') (Path r) = Some (File md))"
proof -
  let ?q = "(Path i)\<lparr> parts := butlast (parts (Path i)) @ [stem (Path i) @ ''.md''] \<rparr>"
  have pq: "parsed ?q"
    using parsed_replace_name [OF parsed_Path, of "stem (Path i)" i]
      name_chars [OF parsed_Path, of i] stem_chars [of "Path i"]
    by auto
  have rt: "Path (str ?q) = ?q" using Path_str [OF pq] .
  have r: "r = (case out of Some s \<Rightarrow> s | None \<Rightarrow> str ?q)"
    using assms
    by (auto simp add: convert_file_def Let_def with_suffix_md split: option.splits sum.splits if_splits)
  obtain md where md: "converter self (files w) i = Inr md"
      and ow: "open_write (files w) r md = Inr (files w')"
    using assms
    by (auto simp add: convert_file_def Let_def logger_def split: option.splits sum.splits if_splits)
  have st: "files w' = store (Path r) (File md) (files w)"
    using ow by (auto simp add: open_write_def Let_def split: if_splits option.splits node.splits)
  show ?thesis
    using r rt md st name_stem_suffix [of "Path i"] by (auto simp add: map_of_store)
qed

theorem convert_file_output_witness:
  "exists (files example_world) (Path ''docs/a.pdf'')
   \<and> fst (convert_file example_converter ''docs/a.pdf'' None example_world) = Inr ''docs/a.md''
   \<and> map_of (files (snd (convert_file example_converter ''docs/a.pdf'' None example_world)))
        (Path ''docs/a.md'') = Some (File ''# A'')
   \<and> fst (convert_file example_converter ''docs/a.pdf'' (Some ''./docs/out.txt'') example_world)
        = Inr ''./docs/out.txt''
   \<and> map_of (files (snd (convert_file example_converter ''docs/a.pdf'' (Some ''./docs/out.txt'')
        example_world))) (Path ''./docs/out.txt'') = Some (File ''# A'')"
proof -
  let ?d = "convert_file example_converter ''docs/a.pdf'' None example_world"
  let ?x = "convert_file example_converter ''docs/a.pdf'' (Some ''./docs/out.txt'') example_world"
  have e: "converter example_converter (files example_world) ''docs/a.pdf'' = Inr ''# A''"
    by (simp add: path_defs run_defs example_defs)
  have d: "?d = (Inr ''docs/a.md'', snd ?d)"
    by (simp add: run_convert_default)
  have x: "?x = (Inr ''./docs/out.txt'', snd ?x)"
    by (simp add: run_convert_explicit)
  obtain md where "converter example_converter (files example_world) ''docs/a.pdf'' = Inr md"
    and "map_of (files (snd ?d)) (Path ''docs/a.md'') = Some (File md)"
    using convert_file_output [OF example_exists d] by blast
  then have 1: "map_of (files (snd ?d)) (Path ''docs/a.md'') = Some (File ''# A'')"
    using e by simp
  obtain md' where "converter example_converter (files example_world) ''docs/a.pdf'' = Inr md'"
    and "map_of (files (snd ?x)) (Path ''./docs/out.txt'') = Some (File md')"
    using convert_file_output [OF example_exists x] by blast
  then have 2: "map_of (files (snd ?x)) (Path ''./docs/out.txt'') = Some (File ''# A'')"
    using e by simp
  have 3: "fst ?d = Inr ''docs/a.md''" using d by (metis fst_conv)
  have 4: "fst ?x = Inr ''./docs/out.txt''" using x by (metis fst_conv)
  show ?thesis using example_exists 1 2 3 4 by blast
qed

subsection \<open>Batch conversion into another directory\<close>

lemma stable_refl: "stable out fs fs"
  by (simp add: stable_def)

lemma keys_store:
  "map fst (store p n fs) = (if p \<in> fst ` set fs then map fst fs else map fst fs @ [p])"
  by (induction fs) (force simp add: image_iff)+

lemma children_store:
  "inside out p \<Longrightarrow> d \<noteq> out \<Longrightarrow> children (store p n fs) d = children fs d"
  by (auto simp add: children_def keys_store inside_def)

lemma stable_store:
  assumes "stable out fs0 fs" "inside out p" "map_of fs p \<noteq> Some Dir"
  shows "stable out fs0 (store p (File c) fs)"
  using assms
  by (auto simp add: stable_def map_of_store children_store)

lemma join_last:
  "ps \<noteq> [] \<Longrightarrow> last ps \<noteq> [] \<Longrightarrow> join s ps \<noteq> [] \<and> last (join s ps) = last (last ps)"
proof (induction ps)
  case Nil
  then show ?case by simp
next
  case (Cons x xs)
  then show ?case by (cases xs) auto
qed

lemma str_last:
  assumes "parsed p" "parts p \<noteq> []"
  shows "str p \<noteq> [] \<and> last (str p) \<noteq> CHR ''/''"
proof -
  have l: "last (parts p) \<noteq> [] \<and> CHR ''/'' \<notin> set (last (parts p))"
    using assms by (simp add: parsed_def)
  then have "last (last (parts p)) \<noteq> CHR ''/''"
    by (metis last_in_set)
  then show ?thesis
    using join_last [OF assms(2), of "''/''"] l by (simp add: str_def)
qed

lemma output_file_parts:
  assumes "parsed f" "parts f \<noteq> []"
  shows "output_file out f = out\<lparr> parts := parts out @ [stem f @ ''.md''] \<rparr>"
proof -
  have "CHR ''/'' \<notin> set (stem f)"
    using name_chars [OF assms(1)] stem_chars [of f] by auto
  then have "split CHR ''/'' (stem f @ ''.md'') = [stem f @ ''.md'']"
    by (simp add: split_no_sep)
  moreover have "stem f @ ''.md'' \<noteq> ''.''" by simp
  moreover have "\<not> startswith (stem f @ ''.md'') ''/''"
    using \<open>CHR ''/'' \<notin> set (stem f)\<close> by (cases "stem f") (auto simp add: startswith_def)
  ultimately show ?thesis
    by (simp add: output_file_def joinpath_def Path_def)
qed

lemma output_file_inside:
  assumes "parsed f" "parts f \<noteq> []" "parsed out"
  shows "inside out (output_file out f) \<and> parsed (output_file out f)"
proof -
  have c: "CHR ''/'' \<notin> set (stem f)"
    using name_chars [OF assms(1)] stem_chars [of f] by auto
  show ?thesis
    using assms(3) c
    by (auto simp add: output_file_parts [OF assms(1,2)] inside_def parent_def parsed_def)
qed

lemma stableD1: "stable out fs0 fs \<Longrightarrow> \<not> inside out p \<Longrightarrow> map_of fs p = map_of fs0 p"
  unfolding stable_def by blast

lemma stableD2: "stable out fs0 fs \<Longrightarrow> (map_of fs p = Some Dir) = (map_of fs0 p = Some Dir)"
  unfolding stable_def by blast

lemma stableD3: "stable out fs0 fs \<Longrightarrow> d \<noteq> out \<Longrightarrow> children fs d = children fs0 d"
  unfolding stable_def by blast

lemma reads_inputD:
  "reads_input eng \<Longrightarrow> map_of fs (Path s) = map_of fs' (Path s) \<Longrightarrow> eng fs s = eng fs' s"
  unfolding reads_input_def by blast

lemma open_write_inside:
  assumes "s \<noteq> []" "last s \<noteq> CHR ''/''" "map_of fs (parent (Path s)) = Some Dir"
  shows "open_write fs s md =
      (if map_of fs (Path s) = Some Dir then Inl (IsADirectoryError s)
       else Inr (store (Path s) (File md) fs))"
proof (cases "map_of fs (Path s)")
  case None
  then show ?thesis using assms by (simp add: open_write_def)
next
  case (Some n)
  then show ?thesis using assms by (cases n) (simp_all add: open_write_def)
qed

lemma convert_file_step:
  assumes st: "stable out fs0 (files w)"
    and dir: "map_of fs0 out = Some Dir"
    and po: "parsed out"
    and ri: "reads_input (converter self)"
    and pf: "parsed f" and nf: "parts f \<noteq> []"
    and ni: "\<not> inside out f" and ex: "map_of fs0 f \<noteq> None"
  shows "convert_file self (str f) (Some (str (output_file out f))) w =
     (case outcome self fs0 out f of
        Inl e \<Rightarrow>
          (Inl e, w\<lparr> logged := logged w @
             [(info, Converting (str f) (str (output_file out f))),
              (error, ConversionFailed e)] \<rparr>)
      | Inr md \<Rightarrow>
          (Inr (str (output_file out f)),
           w\<lparr> files := store (output_file out f) (File md) (files w),
             logged := logged w @
               [(info, Converting (str f) (str (output_file out f))),
                (info, Completed (str (output_file out f)))] \<rparr>))"
proof -
  let ?o = "output_file out f"
  have io: "inside out ?o" and pp: "parsed ?o"
    using output_file_inside [OF pf nf po] by auto
  have no: "parts ?o \<noteq> []" using io by (simp add: inside_def)
  have so: "str ?o \<noteq> []" "last (str ?o) \<noteq> CHR ''/''" using str_last [OF pp no] by auto
  have ro: "Path (str ?o) = ?o" using Path_str [OF pp] .
  have rf: "Path (str f) = f" using Path_str [OF pf] .
  have same: "map_of (files w) f = map_of fs0 f" using stableD1 [OF st ni] .
  have exw: "exists (files w) (Path (str f))" using same ex rf by (simp add: exists_def)
  have eng: "converter self (files w) (str f) = converter self fs0 (str f)"
    using reads_inputD [OF ri, of "files w" "str f" fs0] same rf by simp
  have d: "(map_of (files w) ?o = Some Dir) = (map_of fs0 ?o = Some Dir)"
    using stableD2 [OF st] .
  have "parent ?o = out" using io by (simp add: inside_def)
  then have pd: "map_of (files w) (parent (Path (str ?o))) = Some Dir"
    using stableD2 [OF st, of out] dir ro by simp
  have ow: "open_write (files w) (str ?o) md =
      (if map_of fs0 ?o = Some Dir then Inl (IsADirectoryError (str ?o))
       else Inr (store ?o (File md) (files w)))" for md
    using open_write_inside [OF so pd, of md] ro d by simp
  show ?thesis
  proof (cases "converter self fs0 (str f)")
    case (Inl e)
    then show ?thesis using exw eng
      by (simp add: convert_file_def outcome_def logger_def)
  next
    case (Inr md)
    show ?thesis
    proof (cases "map_of fs0 ?o = Some Dir")
      case True
      then show ?thesis using exw eng Inr ow [of md]
        by (simp add: convert_file_def outcome_def logger_def)
    next
      case False
      then show ?thesis using exw eng Inr ow [of md]
        by (simp add: convert_file_def outcome_def logger_def)
    qed
  qed
qed

lemma stable_write_one:
  assumes st: "stable out fs0 fs" and po: "parsed out" and pf: "parsed f" and nf: "parts f \<noteq> []"
  shows "stable out fs0 (write_one self fs0 out f fs)"
proof (cases "outcome self fs0 out f")
  case (Inl e)
  then show ?thesis using st by (simp add: write_one_def)
next
  case (Inr md)
  then have "map_of fs0 (output_file out f) \<noteq> Some Dir"
    by (auto simp add: outcome_def split: sum.splits if_splits)
  then have "map_of fs (output_file out f) \<noteq> Some Dir"
    using stableD2 [OF st, of "output_file out f"] by simp
  then show ?thesis
    using Inr stable_store [OF st] output_file_inside [OF pf nf po]
    by (simp add: write_one_def)
qed

lemma convert_each_unfold:
  "convert_each self out (f # fl) (acc, w) =
     (case convert_file self (str f) (Some (str (output_file out f))) w of
        (Inr r, w') \<Rightarrow> convert_each self out fl (acc @ [r], w')
      | (Inl e, w') \<Rightarrow> convert_each self out fl (acc, logger error (FileFailed (str f) e) w'))"
  by (simp add: output_file_def)

lemma convert_each_step:
  assumes st: "stable out fs0 (files w)"
    and dir: "map_of fs0 out = Some Dir"
    and po: "parsed out"
    and ri: "reads_input (converter self)"
    and pf: "parsed f" and nf: "parts f \<noteq> []"
    and ni: "\<not> inside out f" and ex: "map_of fs0 f \<noteq> None"
  shows "convert_each self out (f # fl) (acc, w) =
     convert_each self out fl
       (acc @ results self fs0 out [f],
        w\<lparr> files := write_one self fs0 out f (files w),
          logged := logged w @ events self fs0 out f \<rparr>)"
proof (cases "outcome self fs0 out f")
  case (Inl e)
  have cf: "convert_file self (str f) (Some (str (output_file out f))) w =
        (Inl e, w\<lparr> logged := logged w @
           [(info, Converting (str f) (str (output_file out f))), (error, ConversionFailed e)] \<rparr>)"
    using convert_file_step [OF st dir po ri pf nf ni ex] Inl by simp
  show ?thesis
    unfolding convert_each_unfold cf
    using Inl by (simp add: logger_def results_def succeeds_def write_one_def events_def)
next
  case (Inr md)
  have cf: "convert_file self (str f) (Some (str (output_file out f))) w =
        (Inr (str (output_file out f)),
           w\<lparr> files := store (output_file out f) (File md) (files w),
             logged := logged w @
               [(info, Converting (str f) (str (output_file out f))),
                (info, Completed (str (output_file out f)))] \<rparr>)"
    using convert_file_step [OF st dir po ri pf nf ni ex] Inr by simp
  show ?thesis
    unfolding convert_each_unfold cf
    using Inr by (simp add: results_def succeeds_def write_one_def events_def)
qed

lemma results_Cons:
  "results self fs0 out (f # fl) = results self fs0 out [f] @ results self fs0 out fl"
  by (simp add: results_def)

lemma results_append:
  "results self fs0 out (xs @ ys) = results self fs0 out xs @ results self fs0 out ys"
  by (simp add: results_def)

lemma written_Cons:
  "written self fs0 out (f # fl) fs = written self fs0 out fl (write_one self fs0 out f fs)"
  by (simp add: written_def)

lemma written_append:
  "written self fs0 out (xs @ ys) fs = written self fs0 out ys (written self fs0 out xs fs)"
  by (simp add: written_def)

lemma convert_each_stable:
  assumes dir: "map_of fs0 out = Some Dir"
    and po: "parsed out"
    and ri: "reads_input (converter self)"
  shows "stable out fs0 (files w) \<Longrightarrow> sources fs0 out fl \<Longrightarrow>
     convert_each self out fl (acc, w) =
       (acc @ results self fs0 out fl,
        w\<lparr> files := written self fs0 out fl (files w),
          logged := logged w @ concat (map (events self fs0 out) fl) \<rparr>)
     \<and> stable out fs0 (written self fs0 out fl (files w))"
proof (induction fl arbitrary: acc w)
  case Nil
  then show ?case by (simp add: results_def written_def)
next
  case (Cons f fl)
  have pf: "parsed f" and nf: "parts f \<noteq> []" and ni: "\<not> inside out f"
    and ex: "map_of fs0 f \<noteq> None" and rest: "sources fs0 out fl"
    using Cons.prems(2) by (auto simp add: sources_def)
  let ?w' = "w\<lparr> files := write_one self fs0 out f (files w),
          logged := logged w @ events self fs0 out f \<rparr>"
  have s: "stable out fs0 (files ?w')"
    using stable_write_one [OF Cons.prems(1) po pf nf, of self] by simp
  note ih = Cons.IH [OF s rest, of "acc @ results self fs0 out [f]"]
  have "convert_each self out (f # fl) (acc, w) =
      convert_each self out fl (acc @ results self fs0 out [f], ?w')"
    using convert_each_step [OF Cons.prems(1) dir po ri pf nf ni ex] .
  also have "\<dots> = ((acc @ results self fs0 out [f]) @ results self fs0 out fl,
        ?w'\<lparr> files := written self fs0 out fl (files ?w'),
          logged := logged ?w' @ concat (map (events self fs0 out) fl) \<rparr>)"
    using ih by blast
  also have "\<dots> = (acc @ results self fs0 out (f # fl),
        w\<lparr> files := written self fs0 out (f # fl) (files w),
          logged := logged w @ concat (map (events self fs0 out) (f # fl)) \<rparr>)"
    by (simp add: results_Cons [of self fs0 out f fl] written_Cons)
  finally have 1: "convert_each self out (f # fl) (acc, w) =
       (acc @ results self fs0 out (f # fl),
        w\<lparr> files := written self fs0 out (f # fl) (files w),
          logged := logged w @ concat (map (events self fs0 out) (f # fl)) \<rparr>)" .
  have 2: "stable out fs0 (written self fs0 out (f # fl) (files w))"
    using ih by (simp add: written_Cons)
  show ?case using 1 2 by blast
qed

lemma glob_stable:
  assumes "stable out fs0 fs" "d \<noteq> out" "\<not> magic e"
  shows "glob g fs d e = glob g fs0 d e"
  using assms stableD2 [OF assms(1), of d] stableD3 [OF assms(1,2)]
  by (simp add: glob_def)

lemma glob_children:
  "\<not> magic e \<Longrightarrow> glob g fs d e = Inr found \<Longrightarrow> set found \<subseteq> set (children fs d)"
  by (auto simp add: glob_def split: if_splits)

lemma children_sources:
  assumes "\<forall>p \<in> fst ` set fs0. parsed p" "d \<noteq> out" "set fl \<subseteq> set (children fs0 d)"
  shows "sources fs0 out fl"
  unfolding sources_def
proof
  fix f assume "f \<in> set fl"
  then have c: "f \<in> set (children fs0 d)" using assms(3) by blast
  then have k: "f \<in> fst ` set fs0" and n: "parts f \<noteq> []" and p: "parent f = d"
    by (auto simp add: children_def)
  have "map_of fs0 f \<noteq> None" using k by (simp add: map_of_eq_None_iff)
  then show "parsed f \<and> parts f \<noteq> [] \<and> \<not> inside out f \<and> map_of fs0 f \<noteq> None"
    using assms(1,2) k n p by (auto simp add: inside_def)
qed

lemma matching_Cons:
  "matching g fs d (e # es) =
     (case glob g fs d e of Inl x \<Rightarrow> [] | Inr found \<Rightarrow> found) @ matching g fs d es"
  by (simp add: matching_def)

lemma glob_plain: "\<not> magic e \<Longrightarrow> \<exists>found. glob g fs d e = Inr found"
  by (simp add: glob_def)

lemma convert_exts_stable:
  assumes dir: "map_of fs0 out = Some Dir"
    and po: "parsed out"
    and ri: "reads_input (converter self)"
    and ne: "d \<noteq> out"
    and keys: "\<forall>p \<in> fst ` set fs0. parsed p"
  shows "stable out fs0 (files w) \<Longrightarrow> \<forall>e \<in> set exts. \<not> magic e \<Longrightarrow>
     convert_exts g self d out exts (acc, w) =
       (Inr (acc @ results self fs0 out (matching g fs0 d exts)),
        w\<lparr> files := written self fs0 out (matching g fs0 d exts) (files w),
          logged := logged w @ concat (map (events self fs0 out) (matching g fs0 d exts)) \<rparr>)"
proof (induction exts arbitrary: acc w)
  case Nil
  then show ?case by (simp add: matching_def results_def written_def)
next
  case (Cons e es)
  have nm: "\<not> magic e" and rest: "\<forall>e \<in> set es. \<not> magic e" using Cons.prems(2) by auto
  obtain found where g0: "glob g fs0 d e = Inr found" using glob_plain [OF nm] by blast
  have gw: "glob g (files w) d e = Inr found"
    using glob_stable [OF Cons.prems(1) ne nm, of g] g0 by simp
  have src: "sources fs0 out found"
    using children_sources [OF keys ne glob_children [OF nm g0]] .
  let ?w' = "w\<lparr> files := written self fs0 out found (files w),
          logged := logged w @ concat (map (events self fs0 out) found) \<rparr>"
  have ce: "convert_each self out found (acc, w) = (acc @ results self fs0 out found, ?w')"
    and s: "stable out fs0 (files ?w')"
    using convert_each_stable [OF dir po ri Cons.prems(1) src, of acc] by auto
  have m: "matching g fs0 d (e # es) = found @ matching g fs0 d es"
    using g0 by (simp add: matching_Cons)
  have "convert_exts g self d out (e # es) (acc, w) =
      convert_exts g self d out es (acc @ results self fs0 out found, ?w')"
    using gw ce by simp
  also have "\<dots> = (Inr ((acc @ results self fs0 out found)
            @ results self fs0 out (matching g fs0 d es)),
        ?w'\<lparr> files := written self fs0 out (matching g fs0 d es) (files ?w'),
          logged := logged ?w' @ concat (map (events self fs0 out) (matching g fs0 d es)) \<rparr>)"
    using Cons.IH [OF s rest, of "acc @ results self fs0 out found"] .
  also have "\<dots> = (Inr (acc @ results self fs0 out (matching g fs0 d (e # es))),
        w\<lparr> files := written self fs0 out (matching g fs0 d (e # es)) (files w),
          logged := logged w @ concat (map (events self fs0 out) (matching g fs0 d (e # es))) \<rparr>)"
    by (simp add: m results_append written_append)
  finally show ?case .
qed

lemma parsed_joinpath: "parsed p \<Longrightarrow> parsed (joinpath p s)"
  using parsed_Path [of s] by (auto simp add: joinpath_def parsed_def)

lemma parsed_output_directory: "parsed (output_directory d od)"
  by (cases od) (simp_all add: output_directory_def parsed_Path parsed_joinpath)

lemma mkdir_result:
  assumes "mkdir fs p = Inr fs1"
  shows "map_of fs1 p = Some Dir \<and> fst ` set fs1 \<subseteq> insert p (fst ` set fs)
         \<and> (map_of fs p = Some Dir \<longrightarrow> fs1 = fs) \<and> mkdir fs1 p = Inr fs1"
proof (cases "map_of fs p")
  case None
  then have 1: "fs1 = store p Dir fs" using assms
    by (auto simp add: mkdir_def split: option.splits node.splits)
  have "set (map fst (store p Dir fs)) \<subseteq> insert p (fst ` set fs)"
    by (auto simp add: keys_store)
  then show ?thesis using 1 None by (simp add: map_of_store mkdir_def)
next
  case (Some n)
  then show ?thesis using assms by (cases n) (auto simp add: mkdir_def)
qed

lemma convert_multiple_files_unfold:
  "exists (files w) (Path d) \<Longrightarrow>
   convert_multiple_files g self d od es w =
     (case mkdir (files w) (output_directory d od) of
        Inl e \<Rightarrow> (Inl e, w)
      | Inr fs1 \<Rightarrow>
          convert_exts g self (Path d) (output_directory d od) (chosen es)
            ([], w\<lparr> files := fs1 \<rparr>))"
  unfolding convert_multiple_files_def output_directory_def chosen_def Let_def
  by simp

lemma batch_formula:
  assumes ex: "exists (files w) (Path d)"
    and mk: "mkdir (files w) (output_directory d od) = Inr fs0"
    and ne: "output_directory d od \<noteq> Path d"
    and keys: "\<forall>p \<in> fst ` set (files w). parsed p"
    and ri: "reads_input (converter self)"
    and nm: "\<forall>e \<in> set (chosen es). \<not> magic e"
  shows "convert_multiple_files g self d od es w =
     (Inr (results self fs0 (output_directory d od) (matching g fs0 (Path d) (chosen es))),
      w\<lparr> files := written self fs0 (output_directory d od)
                    (matching g fs0 (Path d) (chosen es)) fs0,
        logged := logged w @ concat (map (events self fs0 (output_directory d od))
                    (matching g fs0 (Path d) (chosen es))) \<rparr>)"
proof -
  let ?out = "output_directory d od"
  let ?w0 = "w\<lparr> files := fs0 \<rparr>"
  have dir: "map_of fs0 ?out = Some Dir"
    and sub: "fst ` set fs0 \<subseteq> insert ?out (fst ` set (files w))"
    using mkdir_result [OF mk] by auto
  have po: "parsed ?out" using parsed_output_directory .
  have keys0: "\<forall>p \<in> fst ` set fs0. parsed p"
  proof
    fix p assume "p \<in> fst ` set fs0"
    then have "p \<in> insert ?out (fst ` set (files w))" using sub by (rule rev_subsetD)
    then have "p = ?out \<or> p \<in> fst ` set (files w)" by simp
    then show "parsed p"
    proof
      assume "p = ?out"
      then show ?thesis using po by simp
    next
      assume "p \<in> fst ` set (files w)"
      with keys show ?thesis by (rule bspec)
    qed
  qed
  have ne': "Path d \<noteq> ?out" using ne by simp
  have st: "stable ?out fs0 (files ?w0)" by (simp add: stable_refl)
  have u: "convert_multiple_files g self d od es w =
      convert_exts g self (Path d) ?out (chosen es) ([], ?w0)"
    using convert_multiple_files_unfold [OF ex, of g self od es] mk by simp
  note c = convert_exts_stable [OF dir po ri ne' keys0 st nm, of g "[]"]
  show ?thesis unfolding u c by simp
qed

lemma default_output_directory:
  "output_directory d None = (Path d)\<lparr> parts := parts (Path d) @ [''markdown_output''] \<rparr>
   \<and> output_directory d None \<noteq> Path d"
proof -
  have 1: "output_directory d None = (Path d)\<lparr> parts := parts (Path d) @ [''markdown_output''] \<rparr>"
    by (simp add: output_directory_def joinpath_def startswith_def Path_def)
  have 2: "output_directory d None \<noteq> Path d"
  proof
    assume "output_directory d None = Path d"
    then have "parts (output_directory d None) = parts (Path d)" by simp
    then show False unfolding 1 by simp
  qed
  show ?thesis using 1 2 by blast
qed

lemmas batch_defs = output_file_def output_directory_def chosen_def outcome_def succeeds_def
  events_def write_one_def written_def results_def matching_def example_prepared_def

lemma example_exists_docs: "exists (files example_world) (Path ''docs'')"
  by (simp add: path_defs run_defs example_defs)


lemma example_mkdir:
  "mkdir (files example_world) (output_directory ''docs'' None) = Inr example_prepared"
  by (simp add: path_defs run_defs example_defs batch_defs)

lemma example_other_directory: "output_directory ''docs'' None \<noteq> Path ''docs''"
  using default_output_directory [of "''docs''"] by blast

lemma example_keys: "\<forall>p \<in> fst ` set (files example_world). parsed p"
  by (simp add: path_defs example_defs parsed_def)

lemma example_reads_input: "reads_input (converter example_converter)"
  by (simp add: reads_input_def example_converter_def example_engine_def)

lemma default_plain: "\<forall>e \<in> set (chosen None). \<not> magic e"
  by (simp add: chosen_def default_extensions_def magic_def)


lemma matching_not_dir:
  assumes "\<forall>e \<in> set exts. \<not> magic e" "map_of fs d \<noteq> Some Dir"
  shows "matching g fs d exts = []"
  using assms by (induction exts) (simp_all add: matching_def glob_def)



lemma convert_exts_append:
  "convert_exts g self d out (es1 @ es2) (acc, w) =
     (case convert_exts g self d out es1 (acc, w) of
        (Inl e, w') \<Rightarrow> (Inl e, w')
      | (Inr acc', w') \<Rightarrow> convert_exts g self d out es2 (acc', w'))"
proof (induction es1 arbitrary: acc w)
  case Nil
  show ?case by simp
next
  case (Cons e es1)
  show ?case
  proof (cases "glob g (files w) d e")
    case (Inl x)
    then show ?thesis by simp
  next
    case (Inr found)
    obtain acc' w' where "convert_each self out found (acc, w) = (acc', w')"
      by (cases "convert_each self out found (acc, w)")
    then show ?thesis using Inr Cons.IH [of acc' w'] by simp
  qed
qed

subsection \<open>Order of the results\<close>



subsection \<open>A file that fails\<close>






lemma events_error_records:
  "outcome self fs0 out f = Inl e \<Longrightarrow>
   filter (\<lambda>r. fst r = error) (events self fs0 out f) =
     [(error, ConversionFailed e), (error, FileFailed (str f) e)]"
  by (simp add: events_def)


lemma example_matching:
  "matching no_glob example_prepared (Path ''docs'') (chosen None) =
     [Path ''docs/a.pdf'', Path ''docs/b.docx'', Path ''docs/a.docx'', Path ''docs/e.docx'']"
  by (simp add: path_defs run_defs example_defs batch_defs)



subsection \<open>Files of the same stem\<close>













subsection \<open>The output directory\<close>












subsection \<open>Default extensions and supported formats\<close>

lemma endswith_rev: "endswith s e = (take (length e) (rev s) = rev e)"
proof
  assume "endswith s e"
  then have l: "length e \<le> length s" and d: "drop (length s - length e) s = e"
    by (auto simp add: endswith_def)
  have "take (length e) (rev s) = rev (drop (length s - length e) s)"
    by (simp add: take_rev)
  then show "take (length e) (rev s) = rev e" using d by simp
next
  assume t: "take (length e) (rev s) = rev e"
  then have "length (take (length e) (rev s)) = length e" by simp
  then have l: "length e \<le> length s" by simp
  have "rev (drop (length s - length e) s) = rev e" using t by (simp add: take_rev)
  then have "drop (length s - length e) s = e" by simp
  then show "endswith s e" using l by (simp add: endswith_def)
qed

lemma endswith_conflict:
  assumes "endswith s a" "endswith s b" "length a \<le> length b"
  shows "take (length a) (rev b) = rev a"
proof -
  have 1: "take (length a) (rev s) = rev a" using assms(1) by (simp add: endswith_rev)
  have 2: "take (length b) (rev s) = rev b" using assms(2) by (simp add: endswith_rev)
  have "take (length a) (rev b) = take (length a) (take (length b) (rev s))"
    by (simp only: 2)
  also have "\<dots> = take (length a) (rev s)"
    using assms(3) by (simp add: min_def)
  also have "\<dots> = rev a" by (rule 1)
  finally show ?thesis .
qed

lemma default_not_html_txt:
  assumes "e \<in> set default_extensions" "endswith n e"
  shows "\<not> endswith n ''.html'' \<and> \<not> endswith n ''.txt''"
proof -
  have h: "\<not> endswith n ''.html''"
  proof
    assume "endswith n ''.html''"
    then have "take (length e) (rev ''.html'') = rev e"
      using endswith_conflict [OF assms(2), of "''.html''"] assms(1)
      by (auto simp add: default_extensions_def)
    then show False using assms(1) by (auto simp add: default_extensions_def)
  qed
  have t: "\<not> endswith n ''.txt''"
  proof
    assume x: "endswith n ''.txt''"
    consider "length e \<le> 4" | "length e = 5"
      using assms(1) by (auto simp add: default_extensions_def)
    then show False
    proof cases
      case 1
      then have "take (length e) (rev ''.txt'') = rev e"
        using endswith_conflict [OF assms(2) x] by simp
      then show False using assms(1) by (auto simp add: default_extensions_def)
    next
      case 2
      then have "take (length ''.txt'') (rev e) = rev ''.txt''"
        using endswith_conflict [OF x assms(2)] by simp
      then show False using assms(1) by (auto simp add: default_extensions_def)
    qed
  qed
  show ?thesis using h t by blast
qed

lemma endswith_iff: "endswith s e = (\<exists>x. s = x @ e)"
proof
  assume "endswith s e"
  then have "s = take (length s - length e) s @ e"
    by (simp add: endswith_def) (metis append_take_drop_id)
  then show "\<exists>x. s = x @ e" by (rule exI)
next
  assume "\<exists>x. s = x @ e"
  then show "endswith s e" by (auto simp add: endswith_def)
qed

lemma endswith_trans: "endswith a b \<Longrightarrow> endswith b c \<Longrightarrow> endswith a c"
  unfolding endswith_iff by auto

lemma join_endswith: "ps \<noteq> [] \<Longrightarrow> endswith (join s ps) (last ps)"
proof (induction ps)
  case Nil
  then show ?case by simp
next
  case (Cons x xs)
  show ?case
  proof (cases xs)
    case Nil
    then show ?thesis by (simp add: endswith_iff)
  next
    case (Cons y ys)
    then have "endswith (join s xs) (last xs)" using Cons.IH by simp
    then obtain z where "join s xs = z @ last xs" unfolding endswith_iff by blast
    then have "join s (x # xs) = (x @ s @ z) @ last (x # xs)" using Cons by simp
    then show ?thesis unfolding endswith_iff by (rule exI)
  qed
qed

lemma str_endswith_name: "parts f \<noteq> [] \<Longrightarrow> endswith (str f) (name f)"
proof -
  assume n: "parts f \<noteq> []"
  then obtain z where z: "join ''/'' (parts f) = z @ last (parts f)"
    using join_endswith [of "parts f" "''/''"] unfolding endswith_iff by blast
  have "str f = (root f @ z) @ name f"
    using n z by (simp add: str_def name_def)
  then show ?thesis unfolding endswith_iff by (rule exI)
qed

lemma only_inputs_append:
  "only_inputs P (xs @ ys) = (only_inputs P xs \<and> only_inputs P ys)"
  by (auto simp add: only_inputs_def)

lemma only_inputs_mono:
  "only_inputs P l \<Longrightarrow> (\<And>i. P i \<Longrightarrow> Q i) \<Longrightarrow> only_inputs Q l"
  by (auto simp add: only_inputs_def)

lemma convert_file_inputs:
  "\<exists>l. logged (snd (convert_file self i out w)) = logged w @ l \<and> only_inputs (\<lambda>j. j = i) l"
  by (auto simp add: convert_file_def Let_def logger_def only_inputs_def input_of_def
      split: if_splits sum.splits option.splits)

lemma convert_each_inputs:
  "\<exists>l. logged (snd (convert_each self out fl (acc, w))) = logged w @ l
       \<and> only_inputs (\<lambda>j. j \<in> str ` set fl) l"
proof (induction fl arbitrary: acc w)
  case Nil
  show ?case by (simp add: only_inputs_def)
next
  case (Cons f fl)
  let ?t = "str (output_file out f)"
  obtain r w1 where cf: "convert_file self (str f) (Some ?t) w = (r, w1)"
    by (cases "convert_file self (str f) (Some ?t) w")
  obtain l1 where l1: "logged w1 = logged w @ l1" and o1: "only_inputs (\<lambda>j. j = str f) l1"
    using convert_file_inputs [of self "str f" "Some ?t" w] cf by auto
  have o1': "only_inputs (\<lambda>j. j \<in> str ` set (f # fl)) l1"
    by (rule only_inputs_mono [OF o1]) simp
  show ?case
  proof (cases r)
    case (Inl e)
    let ?w2 = "logger error (FileFailed (str f) e) w1"
    obtain l where l: "logged (snd (convert_each self out fl (acc, ?w2))) = logged ?w2 @ l"
      and o: "only_inputs (\<lambda>j. j \<in> str ` set fl) l"
      using Cons.IH [of acc ?w2] by blast
    have o': "only_inputs (\<lambda>j. j \<in> str ` set (f # fl)) l"
      by (rule only_inputs_mono [OF o]) simp
    have o2: "only_inputs (\<lambda>j. j \<in> str ` set (f # fl)) [(error, FileFailed (str f) e)]"
      by (simp add: only_inputs_def input_of_def)
    have eq: "convert_each self out (f # fl) (acc, w) = convert_each self out fl (acc, ?w2)"
      using cf Inl by (simp add: convert_each_unfold del: convert_each.simps)
    have "logged (snd (convert_each self out (f # fl) (acc, w)))
        = logged w @ (l1 @ [(error, FileFailed (str f) e)] @ l)"
      unfolding eq l using l1 by (simp add: logger_def)
    moreover have "only_inputs (\<lambda>j. j \<in> str ` set (f # fl)) (l1 @ [(error, FileFailed (str f) e)] @ l)"
      using o1' o2 o' by (simp only: only_inputs_append simp_thms)
    ultimately show ?thesis by blast
  next
    case (Inr x)
    obtain l where l: "logged (snd (convert_each self out fl (acc @ [x], w1))) = logged w1 @ l"
      and o: "only_inputs (\<lambda>j. j \<in> str ` set fl) l"
      using Cons.IH [of "acc @ [x]" w1] by blast
    have o': "only_inputs (\<lambda>j. j \<in> str ` set (f # fl)) l"
      by (rule only_inputs_mono [OF o]) simp
    have eq: "convert_each self out (f # fl) (acc, w) = convert_each self out fl (acc @ [x], w1)"
      using cf Inr by (simp add: convert_each_unfold del: convert_each.simps)
    have "logged (snd (convert_each self out (f # fl) (acc, w))) = logged w @ (l1 @ l)"
      unfolding eq l using l1 by simp
    moreover have "only_inputs (\<lambda>j. j \<in> str ` set (f # fl)) (l1 @ l)"
      using o1' o' by (simp only: only_inputs_append simp_thms)
    ultimately show ?thesis by blast
  qed
qed

lemma glob_found:
  "\<not> magic e \<Longrightarrow> glob g fs d e = Inr found \<Longrightarrow>
     \<forall>f \<in> set found. endswith (str f) e"
proof
  fix f assume nm: "\<not> magic e" and gl: "glob g fs d e = Inr found" and f: "f \<in> set found"
  have "f \<in> set (children fs d)" using glob_children [OF nm gl] f by blast
  then have p: "parts f \<noteq> []" by (simp add: children_def)
  have "endswith (name f) e" using nm gl f by (auto simp add: glob_def split: if_splits)
  then show "endswith (str f) e" using str_endswith_name [OF p] endswith_trans by blast
qed

lemma convert_exts_inputs:
  "\<forall>e \<in> set es. \<not> magic e \<Longrightarrow>
   \<exists>l. logged (snd (convert_exts g self d out es (acc, w))) = logged w @ l
       \<and> only_inputs (\<lambda>j. \<exists>e \<in> set es. endswith j e) l"
proof (induction es arbitrary: acc w)
  case Nil
  show ?case by (simp add: only_inputs_def)
next
  case (Cons e es)
  have nm: "\<not> magic e" and rest: "\<forall>e \<in> set es. \<not> magic e" using Cons.prems by auto
  obtain found where gl: "glob g (files w) d e = Inr found" using glob_plain [OF nm] by blast
  note fe = glob_found [OF nm gl]
  obtain acc1 w1 where ce: "convert_each self out found (acc, w) = (acc1, w1)"
    by (cases "convert_each self out found (acc, w)")
  obtain l1 where l1: "logged w1 = logged w @ l1"
    and o1: "only_inputs (\<lambda>j. j \<in> str ` set found) l1"
    using convert_each_inputs [of self out found acc w] ce by auto
  have o1': "only_inputs (\<lambda>j. \<exists>x \<in> set (e # es). endswith j x) l1"
    by (rule only_inputs_mono [OF o1]) (use fe in auto)
  obtain l2 where l2: "logged (snd (convert_exts g self d out es (acc1, w1))) = logged w1 @ l2"
    and o2: "only_inputs (\<lambda>j. \<exists>x \<in> set es. endswith j x) l2"
    using Cons.IH [OF rest, of acc1 w1] by blast
  have o2': "only_inputs (\<lambda>j. \<exists>x \<in> set (e # es). endswith j x) l2"
    by (rule only_inputs_mono [OF o2]) auto
  have eq: "convert_exts g self d out (e # es) (acc, w) = convert_exts g self d out es (acc1, w1)"
    using gl ce by simp
  have "logged (snd (convert_exts g self d out (e # es) (acc, w))) = logged w @ (l1 @ l2)"
    unfolding eq l2 using l1 by simp
  moreover have "only_inputs (\<lambda>j. \<exists>x \<in> set (e # es). endswith j x) (l1 @ l2)"
    using o1' o2' by (simp only: only_inputs_append simp_thms)
  ultimately show ?case by blast
qed

lemma example_events:
  "concat (map (events example_converter example_prepared (output_directory ''docs'' None))
     [Path ''docs/a.pdf'', Path ''docs/b.docx'', Path ''docs/a.docx'', Path ''docs/e.docx''])
   = [(info, Converting ''docs/a.pdf'' ''docs/markdown_output/a.md''),
      (info, Completed ''docs/markdown_output/a.md''),
      (info, Converting ''docs/b.docx'' ''docs/markdown_output/b.md''),
      (error, ConversionFailed (EngineError ''docs/b.docx'')),
      (error, FileFailed ''docs/b.docx'' (EngineError ''docs/b.docx'')),
      (info, Converting ''docs/a.docx'' ''docs/markdown_output/a.md''),
      (info, Completed ''docs/markdown_output/a.md''),
      (info, Converting ''docs/e.docx'' ''docs/markdown_output/e.md''),
      (info, Completed ''docs/markdown_output/e.md'')]"
  by (simp add: path_defs run_defs example_defs batch_defs)

lemma default_extensions_supported:
  "set default_extensions \<subset> set (get_supported_formats self)"
proof (rule psubsetI)
  show "set default_extensions \<subseteq> set (get_supported_formats self)"
    unfolding default_extensions_def get_supported_formats_def by simp
next
  have "''.html'' \<in> set (get_supported_formats self)"
    unfolding get_supported_formats_def by simp
  moreover have "''.html'' \<notin> set default_extensions"
    unfolding default_extensions_def by simp
  ultimately show "set default_extensions \<noteq> set (get_supported_formats self)"
    by (rule_tac notI) simp
qed

lemma supported_not_default:
  "set (get_supported_formats self) - set default_extensions = {''.html'', ''.txt''}"
  unfolding default_extensions_def get_supported_formats_def by simp

text \<open>
  C10. The default extensions are a proper subset of the supported formats, and the
  supported formats that are not default extensions are exactly \<^verbatim>\<open>.html\<close> and \<^verbatim>\<open>.txt\<close>. In a
  batch with the default extensions, on any file system and with any engine, every input
  path in the records the batch logs (a conversion that starts, a file given up) ends with
  one of the default extensions, and so with neither \<^verbatim>\<open>.html\<close> nor \<^verbatim>\<open>.txt\<close>: no file of
  these two formats is handed to \<open>convert_file\<close>.
\<close>

theorem default_extensions_narrower:
  "set default_extensions \<subset> set (get_supported_formats self)
   \<and> set (get_supported_formats self) - set default_extensions = {''.html'', ''.txt''}
   \<and> (\<exists>l. logged (snd (convert_multiple_files g self d od None w)) = logged w @ l
        \<and> only_inputs
             (\<lambda>i. (\<exists>e \<in> set default_extensions. endswith i e)
                    \<and> \<not> endswith i ''.html'' \<and> \<not> endswith i ''.txt'') l)"
proof -
  let ?P = "\<lambda>i. \<exists>e \<in> set default_extensions. endswith i e"
  let ?Q = "\<lambda>i. (\<exists>e \<in> set default_extensions. endswith i e)
                    \<and> \<not> endswith i ''.html'' \<and> \<not> endswith i ''.txt''"
  note 1 = default_extensions_supported [of self]
  note 2 = supported_not_default [of self]
  have plain: "\<forall>e \<in> set default_extensions. \<not> magic e"
    using default_plain by (simp add: chosen_def)
  have PQ: "?Q i" if "?P i" for i
    using that default_not_html_txt by blast
  have 3: "\<exists>l. logged (snd (convert_multiple_files g self d od None w)) = logged w @ l
        \<and> only_inputs ?Q l"
  proof (cases "exists (files w) (Path d)")
    case False
    then have "convert_multiple_files g self d od None w = (Inl (FileNotFoundError d), w)"
      by (simp add: convert_multiple_files_def)
    then have "logged (snd (convert_multiple_files g self d od None w)) = logged w @ []"
      by simp
    moreover have "only_inputs ?Q []" by (simp add: only_inputs_def)
    ultimately show ?thesis by blast
  next
    case True
    note u = convert_multiple_files_unfold [OF True, of g self od None]
    show ?thesis
    proof (cases "mkdir (files w) (output_directory d od)")
      case (Inl e)
      then have "logged (snd (convert_multiple_files g self d od None w)) = logged w @ []"
        unfolding u by simp
      moreover have "only_inputs ?Q []" by (simp add: only_inputs_def)
      ultimately show ?thesis by blast
    next
      case (Inr fs1)
      obtain l where l: "logged (snd (convert_exts g self (Path d) (output_directory d od)
            default_extensions ([], w\<lparr> files := fs1 \<rparr>))) = logged (w\<lparr> files := fs1 \<rparr>) @ l"
        and o: "only_inputs ?P l"
        using convert_exts_inputs [OF plain, of g self "Path d" "output_directory d od" "[]"
            "w\<lparr> files := fs1 \<rparr>"] by blast
      have "logged (snd (convert_multiple_files g self d od None w)) = logged w @ l"
        unfolding u using Inr l by (simp add: chosen_def)
      moreover have "only_inputs ?Q l"
        by (rule only_inputs_mono [OF o]) (rule PQ)
      ultimately show ?thesis by blast
    qed
  qed
  show ?thesis by (rule conjI [OF 1 conjI [OF 2 3]])
qed

theorem default_extensions_narrower_witness:
  "map_of (files example_world) (Path ''docs/c.txt'') = Some (File ''C'')
   \<and> (\<exists>l. logged (snd (convert_multiple_files no_glob example_converter ''docs'' None None
             example_world)) = logged example_world @ l
          \<and> (info, Converting ''docs/e.docx'' ''docs/markdown_output/e.md'') \<in> set l
          \<and> length l = 9
          \<and> only_inputs (\<lambda>i. i \<noteq> ''docs/c.txt'') l)"
proof -
  let ?run = "convert_multiple_files no_glob example_converter ''docs'' None None example_world"
  let ?Q = "\<lambda>i. (\<exists>e \<in> set default_extensions. endswith i e)
                    \<and> \<not> endswith i ''.html'' \<and> \<not> endswith i ''.txt''"
  note bf = batch_formula [OF example_exists_docs example_mkdir example_other_directory
        example_keys example_reads_input default_plain, of no_glob]
  have lg: "logged (snd ?run) = logged example_world @
      concat (map (events example_converter example_prepared (output_directory ''docs'' None))
        (matching no_glob example_prepared (Path ''docs'') (chosen None)))"
    unfolding bf by simp
  obtain l where l: "logged (snd ?run) = logged example_world @ l" and o: "only_inputs ?Q l"
    using default_extensions_narrower [of example_converter no_glob "''docs''" None example_world]
    by blast
  have le: "l = concat (map (events example_converter example_prepared
        (output_directory ''docs'' None))
        [Path ''docs/a.pdf'', Path ''docs/b.docx'', Path ''docs/a.docx'', Path ''docs/e.docx''])"
    using l lg unfolding example_matching by simp
  have m: "(info, Converting ''docs/e.docx'' ''docs/markdown_output/e.md'') \<in> set l"
    unfolding le example_events by simp
  have n: "length l = 9" unfolding le example_events by simp
  have c: "map_of (files example_world) (Path ''docs/c.txt'') = Some (File ''C'')"
    by (simp add: path_defs example_defs)
  have t: "endswith ''docs/c.txt'' ''.txt''" by (simp add: endswith_def)
  have q: "i \<noteq> ''docs/c.txt''" if "?Q i" for i
    using that t by auto
  have o2: "only_inputs (\<lambda>i. i \<noteq> ''docs/c.txt'') l"
    by (rule only_inputs_mono [OF o]) (rule q)
  have 2: "\<exists>l. logged (snd ?run) = logged example_world @ l
          \<and> (info, Converting ''docs/e.docx'' ''docs/markdown_output/e.md'') \<in> set l
          \<and> length l = 9
          \<and> only_inputs (\<lambda>i. i \<noteq> ''docs/c.txt'') l"
    using l m n o2 by blast
  show ?thesis by (rule conjI [OF c 2])
qed

end
